theory Spec2Isabelle
  imports Complex_Main
begin

section \<open>JavaScript numbers\<close>

text \<open>
  The attendance heuristics of \<^verbatim>\<open>src/worker.js\<close> compute with JavaScript numbers.
  A number is modelled as an exact rational extended with the three special values of
  IEEE arithmetic that the code can produce: \<open>NaN\<close> and the two infinities (a division
  by a zero threshold yields one of them). Rounding of doubles is not modelled, and the
  negative zero is identified with zero.
\<close>

datatype jsnum = NaN | NInf | Fin rat | PInf

text \<open>Truthiness of a number: \<open>NaN\<close> and \<open>0\<close> are falsy.\<close>

fun truthy :: "jsnum \<Rightarrow> bool" where
  "truthy NaN = False"
| "truthy (Fin x) = (x \<noteq> 0)"
| "truthy NInf = True"
| "truthy PInf = True"

text \<open>The idiom \<^verbatim>\<open>x || 0\<close> on a number.\<close>

definition or_zero :: "jsnum \<Rightarrow> jsnum" where
  "or_zero x = (if truthy x then x else Fin 0)"

text \<open>The comparison \<^verbatim>\<open>a >= b\<close>: false as soon as one side is \<open>NaN\<close>.\<close>

fun jge :: "jsnum \<Rightarrow> jsnum \<Rightarrow> bool" where
  "jge NaN b = False"
| "jge a NaN = False"
| "jge PInf b = True"
| "jge a NInf = True"
| "jge (Fin x) (Fin y) = (y \<le> x)"
| "jge a b = False"

text \<open>Sign of a number other than \<open>NaN\<close>.\<close>

fun jsign :: "jsnum \<Rightarrow> int" where
  "jsign NaN = 0"
| "jsign NInf = - 1"
| "jsign PInf = 1"
| "jsign (Fin x) = (if x < 0 then - 1 else if x = 0 then 0 else 1)"

text \<open>Multiplication \<^verbatim>\<open>a * b\<close>; an infinity times zero is \<open>NaN\<close>.\<close>

fun jmul :: "jsnum \<Rightarrow> jsnum \<Rightarrow> jsnum" where
  "jmul NaN b = NaN"
| "jmul a NaN = NaN"
| "jmul (Fin x) (Fin y) = Fin (x * y)"
| "jmul a b =
     (if jsign a * jsign b = 0 then NaN
      else if 0 < jsign a * jsign b then PInf else NInf)"

text \<open>
  Division \<^verbatim>\<open>a / b\<close>. JavaScript never raises here: \<open>0 / 0\<close> is \<open>NaN\<close>, another
  number over zero is an infinity of its sign, a finite number over an infinity is zero,
  and an infinity over an infinity is \<open>NaN\<close>.
\<close>

fun jdiv :: "jsnum \<Rightarrow> jsnum \<Rightarrow> jsnum" where
  "jdiv NaN b = NaN"
| "jdiv a NaN = NaN"
| "jdiv (Fin x) (Fin y) =
     (if y = 0 then (if x = 0 then NaN else if 0 < x then PInf else NInf)
      else Fin (x / y))"
| "jdiv (Fin x) b = Fin 0"
| "jdiv a (Fin y) = (if (a = PInf) = (0 \<le> y) then PInf else NInf)"
| "jdiv a b = NaN"

text \<open>Addition \<^verbatim>\<open>a + b\<close>; opposite infinities add up to \<open>NaN\<close>.\<close>

fun jadd :: "jsnum \<Rightarrow> jsnum \<Rightarrow> jsnum" where
  "jadd NaN b = NaN"
| "jadd a NaN = NaN"
| "jadd (Fin x) (Fin y) = Fin (x + y)"
| "jadd PInf NInf = NaN"
| "jadd NInf PInf = NaN"
| "jadd PInf b = PInf"
| "jadd a PInf = PInf"
| "jadd NInf b = NInf"
| "jadd a NInf = NInf"

text \<open>\<^verbatim>\<open>Math.min\<close> and \<^verbatim>\<open>Math.max\<close> of two numbers: \<open>NaN\<close> if either is.\<close>

definition jmin :: "jsnum \<Rightarrow> jsnum \<Rightarrow> jsnum" where
  "jmin a b = (if a = NaN \<or> b = NaN then NaN else if jge a b then b else a)"

definition jmax :: "jsnum \<Rightarrow> jsnum \<Rightarrow> jsnum" where
  "jmax a b = (if a = NaN \<or> b = NaN then NaN else if jge a b then a else b)"

section \<open>Data\<close>

text \<open>
  One entry \<open>s\<close> of \<^verbatim>\<open>speakerAnalytics\<close>, as the provider returns it. A field that is
  \<^verbatim>\<open>null\<close> or absent is \<open>None\<close>.
\<close>

record speaker_analytics =
  s_name :: "string option"
  s_user_email :: "string option"
  s_word_count :: "jsnum option"
  s_duration_sec :: "jsnum option"
  s_questions :: "jsnum option"
  s_duration_pct :: "jsnum option"

text \<open>The object \<^verbatim>\<open>record\<close> that \<^verbatim>\<open>determineAttendance\<close> stores in its index.\<close>

record analytics_record =
  display :: string
  word_count :: jsnum
  duration_sec :: "jsnum option"
  questions :: jsnum
  duration_pct :: "jsnum option"

record thresholds =
  WORDS_MIN :: jsnum
  DURATION_MIN_SEC :: jsnum
  QUESTIONS_MIN :: jsnum

text \<open>One element of the \<^verbatim>\<open>speakers\<close> argument, which the function never reads.\<close>

record speaker =
  speaker_id :: "string option"
  speaker_name :: "string option"

text \<open>One output row.\<close>

record row =
  person :: string
  attended :: bool
  confidence :: jsnum
  reason :: string

section \<open>The activity scorer\<close>

text \<open>\<^verbatim>\<open>x || 0\<close> on a field that may be \<^verbatim>\<open>null\<close>.\<close>

fun opt_or_zero :: "jsnum option \<Rightarrow> jsnum" where
  "opt_or_zero None = Fin 0"
| "opt_or_zero (Some x) = or_zero x"

text \<open>\<^verbatim>\<open>isActive(rec, th)\<close>.\<close>

definition isActive :: "analytics_record \<Rightarrow> thresholds \<Rightarrow> bool" where
  "isActive rec th =
     (let w = or_zero (word_count rec);
          d = opt_or_zero (duration_sec rec);
          q = or_zero (questions rec)
      in jge w (WORDS_MIN th) \<or> jge d (DURATION_MIN_SEC th) \<or> jge q (QUESTIONS_MIN th))"

text \<open>\<^verbatim>\<open>Array.prototype.join\<close> on a list of strings.\<close>

fun join :: "string \<Rightarrow> string list \<Rightarrow> string" where
  "join sep [] = []"
| "join sep [x] = x"
| "join sep (x # y # ys) = x @ sep @ join sep (y # ys)"

text \<open>
  \<^verbatim>\<open>scoreActive(rec, th)\<close>, returning the pair \<^verbatim>\<open>{score, reason}\<close>. The conversion of a
  number to a string inside the template literals is the parameter \<open>fmt\<close>.
\<close>

definition scoreActive ::
    "(jsnum \<Rightarrow> string) \<Rightarrow> analytics_record \<Rightarrow> thresholds \<Rightarrow> jsnum \<times> string" where
  "scoreActive fmt rec th =
     (let w = or_zero (word_count rec);
          d = opt_or_zero (duration_sec rec);
          q = or_zero (questions rec);
          score = Fin 0.0;
          score = jadd score (jmul (jmin (jdiv w (jmul (WORDS_MIN th) (Fin 2))) (Fin 1)) (Fin 0.4));
          score = jadd score (jmul (jmin (jdiv d (jmul (DURATION_MIN_SEC th) (Fin 2))) (Fin 1)) (Fin 0.4));
          score = jadd score (jmul (jmin (jdiv q (jmul (QUESTIONS_MIN th) (Fin 2))) (Fin 1)) (Fin 0.2));
          score = jmax (Fin 0.1) (jmin (Fin 1.0) score);
          reasons = [];
          reasons = (if truthy w then reasons @ [fmt w @ '' words''] else reasons);
          reasons = (if truthy d then reasons @ [fmt d @ ''s spoken''] else reasons);
          reasons = (if truthy q then reasons @ [fmt q @ '' questions''] else reasons)
      in (score, if reasons \<noteq> [] then join ''; '' reasons else ''No detectable speech''))"

section \<open>The resolver\<close>

text \<open>
  \<^verbatim>\<open>norm = (s) => (s || "").trim().toLowerCase()\<close>, on strings of ASCII characters:
  \<open>trim\<close> removes the white space and line terminators at both ends, \<open>toLowerCase\<close>
  maps the letters \<open>A\<close> to \<open>Z\<close>.
\<close>

definition is_space :: "char \<Rightarrow> bool" where
  "is_space c = (c \<in> {CHR '' '', CHR 0x09, CHR 0x0A, CHR 0x0B, CHR 0x0C, CHR 0x0D})"

definition trim :: "string \<Rightarrow> string" where
  "trim s = rev (dropWhile is_space (rev (dropWhile is_space s)))"

definition to_lower_char :: "char \<Rightarrow> char" where
  "to_lower_char c =
     (let n = (of_char c :: nat) in if 65 \<le> n \<and> n \<le> 90 then char_of (n + 32) else c)"

definition toLowerCase :: "string \<Rightarrow> string" where
  "toLowerCase s = map to_lower_char s"

fun norm_key :: "string option \<Rightarrow> string" where
  "norm_key None = toLowerCase (trim '''')"
| "norm_key (Some s) = toLowerCase (trim s)"

text \<open>
  The \<^verbatim>\<open>Map\<close> \<^verbatim>\<open>analyticsByKey\<close>: its entries in insertion order. \<^verbatim>\<open>set\<close> on a key
  that is present replaces the value and keeps the position of the key; on a new key it
  appends an entry.
\<close>

type_synonym jsmap = "(string \<times> analytics_record) list"

fun map_has :: "(string \<times> 'v) list \<Rightarrow> string \<Rightarrow> bool" where
  "map_has [] k = False"
| "map_has ((k', v) # m) k = (k' = k \<or> map_has m k)"

fun map_set :: "(string \<times> 'v) list \<Rightarrow> string \<Rightarrow> 'v \<Rightarrow> (string \<times> 'v) list" where
  "map_set [] k v = [(k, v)]"
| "map_set ((k', v') # m) k v = (if k' = k then (k, v) # m else (k', v') # map_set m k v)"

text \<open>
  \<^verbatim>\<open>a || b\<close> where \<open>a\<close> is a string that may be \<^verbatim>\<open>null\<close>: the empty string is falsy
  as \<^verbatim>\<open>null\<close> is. The display name is \<^verbatim>\<open>s.name || s.user_email || "Unknown"\<close>.
\<close>

fun str_or :: "string option \<Rightarrow> string \<Rightarrow> string" where
  "str_or None b = b"
| "str_or (Some a) b = (if a \<noteq> [] then a else b)"

definition display_of :: "speaker_analytics \<Rightarrow> string" where
  "display_of s = str_or (s_name s) (str_or (s_user_email s) ''Unknown'')"

text \<open>\<^verbatim>\<open>x ?? 0\<close> on a numeric field.\<close>

fun nullish_zero :: "jsnum option \<Rightarrow> jsnum" where
  "nullish_zero None = Fin 0"
| "nullish_zero (Some x) = x"

definition mk_record :: "speaker_analytics \<Rightarrow> analytics_record" where
  "mk_record s =
     \<lparr> display = display_of s,
       word_count = nullish_zero (s_word_count s),
       duration_sec = s_duration_sec s,
       questions = nullish_zero (s_questions s),
       duration_pct = s_duration_pct s \<rparr>"

text \<open>The first loop: one iteration, and the loop over \<^verbatim>\<open>speakerAnalytics\<close>.\<close>

definition index_step :: "jsmap \<Rightarrow> speaker_analytics \<Rightarrow> jsmap" where
  "index_step analyticsByKey s =
     (let keyName = norm_key (s_name s);
          keyEmail = norm_key (s_user_email s);
          record = mk_record s;
          analyticsByKey =
            (if keyName \<noteq> [] then map_set analyticsByKey (''n:'' @ keyName) record
             else analyticsByKey);
          analyticsByKey =
            (if keyEmail \<noteq> [] then map_set analyticsByKey (''e:'' @ keyEmail) record
             else analyticsByKey)
      in analyticsByKey)"

fun index_loop :: "jsmap \<Rightarrow> speaker_analytics list \<Rightarrow> jsmap" where
  "index_loop analyticsByKey [] = analyticsByKey"
| "index_loop analyticsByKey (s # ss) = index_loop (index_step analyticsByKey s) ss"

text \<open>
  The second loop, over the entries of the index, with the state \<^verbatim>\<open>rows\<close> and
  \<^verbatim>\<open>seen\<close>.
\<close>

fun analytics_loop ::
    "(jsnum \<Rightarrow> string) \<Rightarrow> thresholds \<Rightarrow> jsmap \<Rightarrow> row list \<times> string list
      \<Rightarrow> row list \<times> string list" where
  "analytics_loop fmt th [] (rows, seen) = (rows, seen)"
| "analytics_loop fmt th ((key, rec) # es) (rows, seen) =
     (if display rec \<in> set seen then analytics_loop fmt th es (rows, seen)
      else
        (let attended = isActive rec th;
             (score, reason) = scoreActive fmt rec th
         in analytics_loop fmt th es
              (rows @ [\<lparr> person = display rec, attended = attended,
                         confidence = score, reason = reason \<rparr>],
               seen @ [display rec])))"

text \<open>The third loop, over \<^verbatim>\<open>participants || []\<close>.\<close>

fun participants_loop :: "jsmap \<Rightarrow> string list \<Rightarrow> row list \<Rightarrow> row list" where
  "participants_loop analyticsByKey [] rows = rows"
| "participants_loop analyticsByKey (email # es) rows =
     (let keyEmail = ''e:'' @ norm_key (Some email)
      in if map_has analyticsByKey keyEmail then participants_loop analyticsByKey es rows
         else participants_loop analyticsByKey es
                (rows @ [\<lparr> person = email, attended = False, confidence = Fin 0.5,
                           reason = ''Present in participant list but no speech/activity detected'' \<rparr>]))"

text \<open>The loop of the fallback branch.\<close>

fun fallback_loop :: "string list \<Rightarrow> row list \<Rightarrow> row list" where
  "fallback_loop [] rows = rows"
| "fallback_loop (email # es) rows =
     fallback_loop es
       (rows @ [\<lparr> person = email, attended = False, confidence = Fin 0.4,
                  reason = ''Analytics unavailable; cannot confirm activity'' \<rparr>])"

text \<open>
  The argument \<open>participants\<close> is \<open>None\<close> when the caller passes no array:
  \<^verbatim>\<open>participants || []\<close> is then the empty list and \<^verbatim>\<open>Array.isArray(participants)\<close>
  is false.
\<close>

fun participants_or_empty :: "'a list option \<Rightarrow> 'a list" where
  "participants_or_empty None = []"
| "participants_or_empty (Some ps) = ps"

fun is_array :: "'a list option \<Rightarrow> bool" where
  "is_array None = False"
| "is_array (Some ps) = True"

text \<open>
  \<^verbatim>\<open>determineAttendance({speakers, speakerAnalytics, participants, thresholds})\<close>.
\<close>

definition determineAttendance ::
    "(jsnum \<Rightarrow> string) \<Rightarrow> speaker list \<Rightarrow> speaker_analytics list \<Rightarrow> string list option
      \<Rightarrow> thresholds \<Rightarrow> row list" where
  "determineAttendance fmt speakers speakerAnalytics participants thresholds =
     (let analyticsByKey = index_loop [] speakerAnalytics;
          (rows, seen) = analytics_loop fmt thresholds analyticsByKey ([], []);
          rows = participants_loop analyticsByKey (participants_or_empty participants) rows
      in if rows = [] \<and> is_array participants \<and> participants_or_empty participants \<noteq> []
         then fallback_loop (participants_or_empty participants) rows
         else rows)"

section \<open>The resolver on untyped values\<close>

text \<open>
  The definitions above take every field at the type the provider documents for it.
  JavaScript checks no type, and the response is parsed JSON: this section translates the
  same functions once more on fields that hold any scalar value, with the run-time error
  of the code as a result of its own. An element of \<^verbatim>\<open>speakerAnalytics\<close> is an object or
  \<^verbatim>\<open>null\<close>; arrays and objects inside a field are left out.
\<close>

datatype jsval = JUndefined | JNull | JBool bool | JNum jsnum | JStr string

datatype js_error = TypeError

text \<open>Truthiness of a value, and the operators \<^verbatim>\<open>a || b\<close> and \<^verbatim>\<open>a ?? b\<close>.\<close>

fun val_truthy :: "jsval \<Rightarrow> bool" where
  "val_truthy JUndefined = False"
| "val_truthy JNull = False"
| "val_truthy (JBool b) = b"
| "val_truthy (JNum n) = truthy n"
| "val_truthy (JStr s) = (s \<noteq> [])"

definition val_or :: "jsval \<Rightarrow> jsval \<Rightarrow> jsval" where
  "val_or a b = (if val_truthy a then a else b)"

fun val_nullish :: "jsval \<Rightarrow> jsval \<Rightarrow> jsval" where
  "val_nullish JUndefined b = b"
| "val_nullish JNull b = b"
| "val_nullish a b = a"

text \<open>
  The conversion to a number that \<^verbatim>\<open>>=\<close> and \<^verbatim>\<open>/\<close> apply to an operand (the other
  operand is a number here), and the conversion to a string of a template literal. The
  reading of a string as a number is the parameter \<open>tonum\<close>.
\<close>

fun to_number :: "(string \<Rightarrow> jsnum) \<Rightarrow> jsval \<Rightarrow> jsnum" where
  "to_number tonum JUndefined = NaN"
| "to_number tonum JNull = Fin 0"
| "to_number tonum (JBool b) = (if b then Fin 1 else Fin 0)"
| "to_number tonum (JNum n) = n"
| "to_number tonum (JStr s) = tonum s"

fun to_string :: "(jsnum \<Rightarrow> string) \<Rightarrow> jsval \<Rightarrow> string" where
  "to_string fmt JUndefined = ''undefined''"
| "to_string fmt JNull = ''null''"
| "to_string fmt (JBool b) = (if b then ''true'' else ''false'')"
| "to_string fmt (JNum n) = fmt n"
| "to_string fmt (JStr s) = s"

text \<open>
  The call \<^verbatim>\<open>v.trim()\<close>: only a string has the method, on any other value the call
  raises a \<^verbatim>\<open>TypeError\<close>. Then \<^verbatim>\<open>norm\<close>, which raises on a truthy value that is not
  a string.
\<close>

fun call_trim :: "jsval \<Rightarrow> js_error + string" where
  "call_trim (JStr s) = Inr (trim s)"
| "call_trim v = Inl TypeError"

definition norm_js :: "jsval \<Rightarrow> js_error + string" where
  "norm_js s =
     (case call_trim (val_or s (JStr [])) of
        Inl e \<Rightarrow> Inl e
      | Inr t \<Rightarrow> Inr (toLowerCase t))"

record js_speaker =
  j_name :: jsval
  j_user_email :: jsval
  j_word_count :: jsval
  j_duration_sec :: jsval
  j_questions :: jsval
  j_duration_pct :: jsval

record js_record =
  jdisplay :: jsval
  jword_count :: jsval
  jduration_sec :: jsval
  jquestions :: jsval
  jduration_pct :: jsval

record js_row =
  jperson :: jsval
  jattended :: bool
  jconfidence :: jsnum
  jreason :: string

text \<open>\<^verbatim>\<open>isActive\<close> and \<^verbatim>\<open>scoreActive\<close> on a record of untyped fields.\<close>

definition isActive_js :: "(string \<Rightarrow> jsnum) \<Rightarrow> js_record \<Rightarrow> thresholds \<Rightarrow> bool" where
  "isActive_js tonum rec th =
     (let w = val_or (jword_count rec) (JNum (Fin 0));
          d = val_or (jduration_sec rec) (JNum (Fin 0));
          q = val_or (jquestions rec) (JNum (Fin 0))
      in jge (to_number tonum w) (WORDS_MIN th) \<or> jge (to_number tonum d) (DURATION_MIN_SEC th)
         \<or> jge (to_number tonum q) (QUESTIONS_MIN th))"

definition scoreActive_js ::
    "(string \<Rightarrow> jsnum) \<Rightarrow> (jsnum \<Rightarrow> string) \<Rightarrow> js_record \<Rightarrow> thresholds \<Rightarrow> jsnum \<times> string" where
  "scoreActive_js tonum fmt rec th =
     (let w = val_or (jword_count rec) (JNum (Fin 0));
          d = val_or (jduration_sec rec) (JNum (Fin 0));
          q = val_or (jquestions rec) (JNum (Fin 0));
          score = Fin 0.0;
          score = jadd score
                    (jmul (jmin (jdiv (to_number tonum w) (jmul (WORDS_MIN th) (Fin 2))) (Fin 1))
                       (Fin 0.4));
          score = jadd score
                    (jmul (jmin (jdiv (to_number tonum d) (jmul (DURATION_MIN_SEC th) (Fin 2))) (Fin 1))
                       (Fin 0.4));
          score = jadd score
                    (jmul (jmin (jdiv (to_number tonum q) (jmul (QUESTIONS_MIN th) (Fin 2))) (Fin 1))
                       (Fin 0.2));
          score = jmax (Fin 0.1) (jmin (Fin 1.0) score);
          reasons = [];
          reasons = (if val_truthy w then reasons @ [to_string fmt w @ '' words''] else reasons);
          reasons = (if val_truthy d then reasons @ [to_string fmt d @ ''s spoken''] else reasons);
          reasons = (if val_truthy q then reasons @ [to_string fmt q @ '' questions''] else reasons)
      in (score, if reasons \<noteq> [] then join ''; '' reasons else ''No detectable speech''))"

text \<open>
  The first loop. Reading \<^verbatim>\<open>s.name\<close> of an element that is \<^verbatim>\<open>null\<close> raises, and so
  does either call of \<^verbatim>\<open>norm\<close>; an error ends the loop.
\<close>

definition mk_record_js :: "js_speaker \<Rightarrow> js_record" where
  "mk_record_js s =
     \<lparr> jdisplay = val_or (j_name s) (val_or (j_user_email s) (JStr ''Unknown'')),
       jword_count = val_nullish (j_word_count s) (JNum (Fin 0)),
       jduration_sec = val_nullish (j_duration_sec s) JNull,
       jquestions = val_nullish (j_questions s) (JNum (Fin 0)),
       jduration_pct = val_nullish (j_duration_pct s) JNull \<rparr>"

definition index_step_js ::
    "(string \<times> js_record) list \<Rightarrow> js_speaker option
      \<Rightarrow> js_error + (string \<times> js_record) list" where
  "index_step_js analyticsByKey s' =
     (case s' of
        None \<Rightarrow> Inl TypeError
      | Some s \<Rightarrow>
          (case norm_js (j_name s) of
             Inl e \<Rightarrow> Inl e
           | Inr keyName \<Rightarrow>
               (case norm_js (j_user_email s) of
                  Inl e \<Rightarrow> Inl e
                | Inr keyEmail \<Rightarrow>
                    (let record = mk_record_js s;
                         analyticsByKey =
                           (if keyName \<noteq> [] then map_set analyticsByKey (''n:'' @ keyName) record
                            else analyticsByKey);
                         analyticsByKey =
                           (if keyEmail \<noteq> [] then map_set analyticsByKey (''e:'' @ keyEmail) record
                            else analyticsByKey)
                     in Inr analyticsByKey))))"

fun index_loop_js ::
    "(string \<times> js_record) list \<Rightarrow> js_speaker option list
      \<Rightarrow> js_error + (string \<times> js_record) list" where
  "index_loop_js analyticsByKey [] = Inr analyticsByKey"
| "index_loop_js analyticsByKey (s # ss) =
     (case index_step_js analyticsByKey s of
        Inl e \<Rightarrow> Inl e
      | Inr analyticsByKey' \<Rightarrow> index_loop_js analyticsByKey' ss)"

text \<open>The second loop raises nothing; the third calls \<^verbatim>\<open>norm\<close> on each participant.\<close>

fun analytics_loop_js ::
    "(string \<Rightarrow> jsnum) \<Rightarrow> (jsnum \<Rightarrow> string) \<Rightarrow> thresholds \<Rightarrow> (string \<times> js_record) list
      \<Rightarrow> js_row list \<times> jsval list \<Rightarrow> js_row list \<times> jsval list" where
  "analytics_loop_js tonum fmt th [] (rows, seen) = (rows, seen)"
| "analytics_loop_js tonum fmt th ((key, rec) # es) (rows, seen) =
     (if jdisplay rec \<in> set seen then analytics_loop_js tonum fmt th es (rows, seen)
      else
        (let attended = isActive_js tonum rec th;
             (score, reason) = scoreActive_js tonum fmt rec th
         in analytics_loop_js tonum fmt th es
              (rows @ [\<lparr> jperson = jdisplay rec, jattended = attended,
                         jconfidence = score, jreason = reason \<rparr>],
               seen @ [jdisplay rec])))"

fun participants_loop_js ::
    "(string \<times> js_record) list \<Rightarrow> jsval list \<Rightarrow> js_row list \<Rightarrow> js_error + js_row list" where
  "participants_loop_js analyticsByKey [] rows = Inr rows"
| "participants_loop_js analyticsByKey (email # es) rows =
     (case norm_js email of
        Inl e \<Rightarrow> Inl e
      | Inr k \<Rightarrow>
          (let keyEmail = ''e:'' @ k
           in if map_has analyticsByKey keyEmail then participants_loop_js analyticsByKey es rows
              else participants_loop_js analyticsByKey es
                     (rows @ [\<lparr> jperson = email, jattended = False, jconfidence = Fin 0.5,
                                jreason = ''Present in participant list but no speech/activity detected'' \<rparr>])))"

fun fallback_loop_js :: "jsval list \<Rightarrow> js_row list \<Rightarrow> js_row list" where
  "fallback_loop_js [] rows = rows"
| "fallback_loop_js (email # es) rows =
     fallback_loop_js es
       (rows @ [\<lparr> jperson = email, jattended = False, jconfidence = Fin 0.4,
                  jreason = ''Analytics unavailable; cannot confirm activity'' \<rparr>])"

text \<open>\<^verbatim>\<open>determineAttendance\<close> on untyped values: the rows, or the error that ends the call.\<close>

definition determineAttendance_js ::
    "(string \<Rightarrow> jsnum) \<Rightarrow> (jsnum \<Rightarrow> string) \<Rightarrow> speaker list \<Rightarrow> js_speaker option list
      \<Rightarrow> jsval list option \<Rightarrow> thresholds \<Rightarrow> js_error + js_row list" where
  "determineAttendance_js tonum fmt speakers speakerAnalytics participants thresholds =
     (case index_loop_js [] speakerAnalytics of
        Inl e \<Rightarrow> Inl e
      | Inr analyticsByKey \<Rightarrow>
          (let (rows, seen) = analytics_loop_js tonum fmt thresholds analyticsByKey ([], [])
           in case participants_loop_js analyticsByKey (participants_or_empty participants) rows of
                Inl e \<Rightarrow> Inl e
              | Inr rows \<Rightarrow>
                  Inr (if rows = [] \<and> is_array participants
                          \<and> participants_or_empty participants \<noteq> []
                       then fallback_loop_js (participants_or_empty participants) rows
                       else rows)))"

section \<open>The resolver's output, described as lists\<close>

text \<open>
  The definitions of this section are not translations of the code: they word the output
  of the resolver as list expressions, and the theorems below compare them with the loops.
\<close>

text \<open>The row that the second loop pushes for a record.\<close>

definition score_row :: "(jsnum \<Rightarrow> string) \<Rightarrow> thresholds \<Rightarrow> analytics_record \<Rightarrow> row" where
  "score_row fmt th rec =
     \<lparr> person = display rec, attended = isActive rec th,
       confidence = fst (scoreActive fmt rec th), reason = snd (scoreActive fmt rec th) \<rparr>"

text \<open>The records of a list whose display name is not in \<open>seen\<close> and did not occur before.\<close>

fun dedup_display :: "string list \<Rightarrow> analytics_record list \<Rightarrow> analytics_record list" where
  "dedup_display seen [] = []"
| "dedup_display seen (r # rs) =
     (if display r \<in> set seen then dedup_display seen rs
      else r # dedup_display (seen @ [display r]) rs)"

text \<open>The row of a participant without analytics, and the rows of the participant pass.\<close>

definition silent_row :: "string \<Rightarrow> row" where
  "silent_row email =
     \<lparr> person = email, attended = False, confidence = Fin 0.5,
       reason = ''Present in participant list but no speech/activity detected'' \<rparr>"

definition participant_rows :: "jsmap \<Rightarrow> string list \<Rightarrow> row list" where
  "participant_rows idx ps =
     map silent_row (filter (\<lambda>email. \<not> map_has idx (''e:'' @ norm_key (Some email))) ps)"

definition analytics_rows :: "(jsnum \<Rightarrow> string) \<Rightarrow> thresholds \<Rightarrow> jsmap \<Rightarrow> row list" where
  "analytics_rows fmt th idx = map (score_row fmt th) (dedup_display [] (map snd idx))"

text \<open>An entry has a key when its name or its email does not normalize to the empty string.\<close>

definition has_key :: "speaker_analytics \<Rightarrow> bool" where
  "has_key s = (norm_key (s_name s) \<noteq> [] \<or> norm_key (s_user_email s) \<noteq> [])"

text \<open>
  The calls of \<^verbatim>\<open>analyticsByKey.set\<close> that the first loop makes, in order: for each
  entry its name key, then its email key, where they are not empty.
\<close>

definition key_writes_of :: "speaker_analytics \<Rightarrow> (string \<times> analytics_record) list" where
  "key_writes_of s =
     (if norm_key (s_name s) \<noteq> [] then [(''n:'' @ norm_key (s_name s), mk_record s)] else []) @
     (if norm_key (s_user_email s) \<noteq> [] then [(''e:'' @ norm_key (s_user_email s), mk_record s)]
      else [])"

definition key_writes :: "speaker_analytics list \<Rightarrow> (string \<times> analytics_record) list" where
  "key_writes sa = concat (map key_writes_of sa)"

abbreviation write_key :: "string \<times> analytics_record \<Rightarrow> jsmap \<Rightarrow> jsmap" where
  "write_key \<equiv> \<lambda>(k, v) m. map_set m k v"

text \<open>The keys of a list in the order of their first occurrence, those in \<open>seen\<close> left out.\<close>

fun first_seen :: "string list \<Rightarrow> string list \<Rightarrow> string list" where
  "first_seen seen [] = []"
| "first_seen seen (k # ks) =
     (if k \<in> set seen then first_seen seen ks else k # first_seen (seen @ [k]) ks)"

text \<open>
  The output as the specification words it: the rows of the metrics that are indexed, in
  the order of the analytics list, one for each display name, then the rows of the
  participants whose email key is not in the index, in the order of the participant list.
\<close>

definition resolve_spec ::
    "(jsnum \<Rightarrow> string) \<Rightarrow> speaker_analytics list \<Rightarrow> string list \<Rightarrow> thresholds \<Rightarrow> row list" where
  "resolve_spec fmt sa ps th =
     map (score_row fmt th) (dedup_display [] (map mk_record (filter has_key sa)))
     @ participant_rows (index_loop [] sa) ps"

text \<open>A fallback row, recognised by its three constant fields.\<close>

definition is_fallback_row :: "row \<Rightarrow> bool" where
  "is_fallback_row r =
     (attended r = False \<and> confidence r = Fin 0.4
      \<and> reason r = ''Analytics unavailable; cannot confirm activity'')"

text \<open>
  Well-typed input of the untyped resolver: every analytics entry is an object whose name
  and email are strings or falsy (missing in particular), and every participant is a
  string or falsy.
\<close>

fun string_or_falsy :: "jsval \<Rightarrow> bool" where
  "string_or_falsy (JStr s) = True"
| "string_or_falsy v = (\<not> val_truthy v)"














text \<open>Typed entries, records and rows as untyped ones; a missing field becomes \<^verbatim>\<open>null\<close>.\<close>

fun opt_str :: "string option \<Rightarrow> jsval" where
  "opt_str None = JNull"
| "opt_str (Some s) = JStr s"

fun opt_num :: "jsnum option \<Rightarrow> jsval" where
  "opt_num None = JNull"
| "opt_num (Some n) = JNum n"

definition untyped_speaker :: "speaker_analytics \<Rightarrow> js_speaker" where
  "untyped_speaker s =
     \<lparr> j_name = opt_str (s_name s), j_user_email = opt_str (s_user_email s),
       j_word_count = opt_num (s_word_count s), j_duration_sec = opt_num (s_duration_sec s),
       j_questions = opt_num (s_questions s), j_duration_pct = opt_num (s_duration_pct s) \<rparr>"

definition untyped_record :: "analytics_record \<Rightarrow> js_record" where
  "untyped_record r =
     \<lparr> jdisplay = JStr (display r), jword_count = JNum (word_count r),
       jduration_sec = opt_num (duration_sec r), jquestions = JNum (questions r),
       jduration_pct = opt_num (duration_pct r) \<rparr>"

definition untyped_row :: "row \<Rightarrow> js_row" where
  "untyped_row r =
     \<lparr> jperson = JStr (person r), jattended = attended r, jconfidence = confidence r,
       jreason = reason r \<rparr>"

section \<open>Examples\<close>

text \<open>
  A number-to-string conversion for the examples: it agrees with JavaScript's on the
  natural numbers below \<open>10\<^sup>2\<^sup>1\<close>, which are printed as their decimal digits, and
  on the three special values.
\<close>

fun digits :: "nat \<Rightarrow> string" where
  "digits n =
     (if n < 10 then [char_of (48 + n)] else digits (n div 10) @ [char_of (48 + n mod 10)])"

declare digits.simps [simp del]

fun decimal_of :: "jsnum \<Rightarrow> string" where
  "decimal_of NaN = ''NaN''"
| "decimal_of PInf = ''Infinity''"
| "decimal_of NInf = ''-Infinity''"
| "decimal_of (Fin x) = digits (nat \<lfloor>x\<rfloor>)"

text \<open>The default thresholds of the caller: 20 words, 60 seconds, 1 question.\<close>

definition default_thresholds :: thresholds where
  "default_thresholds = \<lparr> WORDS_MIN = Fin 20, DURATION_MIN_SEC = Fin 60, QUESTIONS_MIN = Fin 1 \<rparr>"

definition one_below :: speaker_analytics where
  "one_below =
     \<lparr> s_name = Some ''Carol'', s_user_email = None, s_word_count = Some (Fin 19),
       s_duration_sec = Some (Fin 59), s_questions = None, s_duration_pct = None \<rparr>"

definition unnamed :: speaker_analytics where
  "unnamed =
     \<lparr> s_name = None, s_user_email = None, s_word_count = Some (Fin 100),
       s_duration_sec = Some (Fin 300), s_questions = Some (Fin 2), s_duration_pct = None \<rparr>"

definition blank :: speaker_analytics where
  "blank =
     \<lparr> s_name = Some '''', s_user_email = Some ''  '', s_word_count = Some (Fin 100),
       s_duration_sec = Some (Fin 300), s_questions = Some (Fin 2), s_duration_pct = None \<rparr>"

definition shared_email :: "speaker_analytics list" where
  "shared_email =
     [\<lparr> s_name = Some ''a'', s_user_email = Some ''x@co.com'', s_word_count = Some (Fin 30),
        s_duration_sec = None, s_questions = None, s_duration_pct = None \<rparr>,
      \<lparr> s_name = Some ''b'', s_user_email = None, s_word_count = Some (Fin 5),
        s_duration_sec = None, s_questions = None, s_duration_pct = None \<rparr>,
      \<lparr> s_name = None, s_user_email = Some ''x@co.com'', s_word_count = Some (Fin 7),
        s_duration_sec = None, s_questions = None, s_duration_pct = None \<rparr>]"

definition alice :: speaker_analytics where
  "alice =
     \<lparr> s_name = Some ''Alice'', s_user_email = None, s_word_count = Some (Fin 50),
       s_duration_sec = Some (Fin 200), s_questions = Some (Fin 3), s_duration_pct = None \<rparr>"






section \<open>The activity scorer: verdict and confidence\<close>

lemma or_zero_nullish: "x \<noteq> Some NaN \<Longrightarrow> or_zero (nullish_zero x) = nullish_zero x"
  by (cases x; cases "the x") (auto simp: or_zero_def)

lemma opt_or_zero_nullish: "x \<noteq> Some NaN \<Longrightarrow> opt_or_zero x = nullish_zero x"
  by (cases x; cases "the x") (auto simp: or_zero_def)

text \<open>
  Claim C1. For a speaker entry whose numeric fields are numbers or missing (none is
  \<open>NaN\<close>) and any thresholds, the verdict \<open>attended\<close> is true if and only if the word
  count reaches \<open>WORDS_MIN\<close> or the duration reaches \<open>DURATION_MIN_SEC\<close> or the question
  count reaches \<open>QUESTIONS_MIN\<close>, a missing field counting as 0; it is false exactly when
  the three comparisons fail.
\<close>

theorem isActive_iff_any_threshold:
  assumes "s_word_count s \<noteq> Some NaN" and "s_duration_sec s \<noteq> Some NaN"
    and "s_questions s \<noteq> Some NaN"
  shows "(isActive (mk_record s) th \<longleftrightarrow>
            jge (nullish_zero (s_word_count s)) (WORDS_MIN th)
          \<or> jge (nullish_zero (s_duration_sec s)) (DURATION_MIN_SEC th)
          \<or> jge (nullish_zero (s_questions s)) (QUESTIONS_MIN th))
       \<and> (\<not> isActive (mk_record s) th \<longleftrightarrow>
            \<not> jge (nullish_zero (s_word_count s)) (WORDS_MIN th)
          \<and> \<not> jge (nullish_zero (s_duration_sec s)) (DURATION_MIN_SEC th)
          \<and> \<not> jge (nullish_zero (s_questions s)) (QUESTIONS_MIN th))"
  using assms by (simp add: isActive_def mk_record_def or_zero_nullish opt_or_zero_nullish)

text \<open>The witness: every measured value is one below its threshold, the question count is missing.\<close>

theorem isActive_iff_any_threshold_witness:
  "s_word_count one_below \<noteq> Some NaN \<and> s_duration_sec one_below \<noteq> Some NaN
   \<and> s_questions one_below \<noteq> Some NaN
   \<and> \<not> isActive (mk_record one_below) default_thresholds
   \<and> \<not> jge (Fin 19) (Fin 20) \<and> \<not> jge (Fin 59) (Fin 60) \<and> \<not> jge (Fin 0) (Fin 1)"
  using isActive_iff_any_threshold [of one_below default_thresholds]
  by (simp add: one_below_def default_thresholds_def)

lemma jmin_Fin: "jmin (Fin x) (Fin y) = Fin (min x y)"
  by (simp add: jmin_def min_def)

lemma jmax_Fin: "jmax (Fin x) (Fin y) = Fin (max x y)"
  by (simp add: jmax_def max_def)

lemma contribution_Fin:
  "0 < a \<Longrightarrow>
   jmul (jmin (jdiv (Fin w) (jmul (Fin a) (Fin 2))) (Fin 1)) (Fin k) = Fin (min (w / (a * 2)) 1 * k)"
  by (simp add: jmin_Fin)

text \<open>
  Claim C4. The claim is that the confidence lies in \<open>[0.1, 1.0]\<close> for all non-negative
  metrics and thresholds. With the word threshold 0 and a word count 0 the quotient
  \<open>0 / 0\<close> is \<open>NaN\<close>, which the clamp \<^verbatim>\<open>Math.max(0.1, Math.min(1.0, score))\<close> lets
  through: the confidence is \<open>NaN\<close>, which is not at least 0.1.
\<close>

theorem scoreActive_zero_threshold_NaN:
  "fst (scoreActive fmt
         \<lparr> display = ''Dan'', word_count = Fin 0, duration_sec = None, questions = Fin 0,
           duration_pct = None \<rparr>
         \<lparr> WORDS_MIN = Fin 0, DURATION_MIN_SEC = Fin 60, QUESTIONS_MIN = Fin 1 \<rparr>) = NaN
   \<and> \<not> jge (fst (scoreActive fmt
         \<lparr> display = ''Dan'', word_count = Fin 0, duration_sec = None, questions = Fin 0,
           duration_pct = None \<rparr>
         \<lparr> WORDS_MIN = Fin 0, DURATION_MIN_SEC = Fin 60, QUESTIONS_MIN = Fin 1 \<rparr>)) (Fin 0.1)"
  by (simp add: scoreActive_def or_zero_def jmin_def jmax_def)

text \<open>
  With three positive thresholds the clamp does what it is written for: the confidence of
  a record with non-negative counts lies between 0.1 and 1.
\<close>

lemma scoreActive_in_range:
  assumes "WORDS_MIN th = Fin a" and "0 < a"
    and "DURATION_MIN_SEC th = Fin b" and "0 < b"
    and "QUESTIONS_MIN th = Fin c" and "0 < c"
    and "word_count rec = Fin w" and "0 \<le> w"
    and "duration_sec rec = None \<or> (\<exists>d. duration_sec rec = Some (Fin d) \<and> 0 \<le> d)"
    and "questions rec = Fin q" and "0 \<le> q"
  shows "jge (fst (scoreActive fmt rec th)) (Fin 0.1) \<and> jge (Fin 1.0) (fst (scoreActive fmt rec th))"
proof -
  have "\<exists>d. opt_or_zero (duration_sec rec) = Fin d"
    using assms(9) by (auto simp: or_zero_def)
  then obtain d where d: "opt_or_zero (duration_sec rec) = Fin d" ..
  have w: "or_zero (word_count rec) = Fin w" and q: "or_zero (questions rec) = Fin q"
    using assms by (auto simp: or_zero_def)
  have "\<exists>x. fst (scoreActive fmt rec th) = Fin (max 0.1 (min 1.0 x))"
    unfolding scoreActive_def Let_def w q d assms(1,3,5)
    by (simp only: contribution_Fin [OF assms(2)] contribution_Fin [OF assms(4)]
        contribution_Fin [OF assms(6)] jadd.simps jmin_Fin jmax_Fin fst_conv) blast
  then obtain x where "fst (scoreActive fmt rec th) = Fin (max 0.1 (min 1.0 x))" ..
  then show ?thesis by simp
qed

section \<open>The resolver as an expression on lists\<close>

lemma analytics_loop_rows:
  "fst (analytics_loop fmt th es (rows, seen)) =
     rows @ map (score_row fmt th) (dedup_display seen (map snd es))"
  by (induction es arbitrary: rows seen)
     (auto simp: score_row_def Let_def split: prod.splits)

lemma participants_loop_rows:
  "participants_loop idx ps rows = rows @ participant_rows idx ps"
  by (induction ps arbitrary: rows) (auto simp: participant_rows_def silent_row_def Let_def)

lemma dedup_display_nonempty: "es \<noteq> [] \<Longrightarrow> dedup_display [] es \<noteq> []"
  by (cases es) auto

lemma participant_rows_empty_index: "participant_rows [] ps = map silent_row ps"
  by (simp add: participant_rows_def)

text \<open>
  The fallback branch is never taken: when the index is empty the third loop has pushed a
  row for every participant, and otherwise the second loop has pushed one.
\<close>

lemma determineAttendance_rows:
  "determineAttendance fmt sp sa participants th =
     map (score_row fmt th) (dedup_display [] (map snd (index_loop [] sa)))
     @ participant_rows (index_loop [] sa) (participants_or_empty participants)"
proof -
  let ?idx = "index_loop [] sa"
  let ?a = "map (score_row fmt th) (dedup_display [] (map snd ?idx))"
  let ?p = "participant_rows ?idx (participants_or_empty participants)"
  have nofb: "\<not> (?a @ ?p = [] \<and> is_array participants
                  \<and> participants_or_empty participants \<noteq> [])"
  proof (cases "?idx = []")
    case True
    then show ?thesis by (simp add: participant_rows_empty_index)
  next
    case False
    then have "dedup_display [] (map snd ?idx) \<noteq> []" by (simp add: dedup_display_nonempty)
    then show ?thesis by simp
  qed
  obtain rows seen where al: "analytics_loop fmt th ?idx ([], []) = (rows, seen)"
    by (cases "analytics_loop fmt th ?idx ([], [])")
  have "fst (analytics_loop fmt th ?idx ([], [])) = ?a"
    by (simp add: analytics_loop_rows)
  with al have rows: "rows = ?a" by simp
  have eq: "determineAttendance fmt sp sa participants th =
          (if ?a @ ?p = [] \<and> is_array participants
              \<and> participants_or_empty participants \<noteq> []
           then fallback_loop (participants_or_empty participants) (?a @ ?p) else ?a @ ?p)"
    unfolding determineAttendance_def Let_def al participants_loop_rows rows by simp
  show ?thesis unfolding eq by (simp only: nofb if_False)
qed

lemma dedup_display_fresh:
  "r \<in> set (dedup_display seen rs) \<Longrightarrow> display r \<notin> set seen"
proof (induction rs arbitrary: seen)
  case Nil
  then show ?case by simp
next
  case (Cons a rs)
  show ?case
  proof (cases "display a \<in> set seen")
    case True
    with Cons show ?thesis by simp
  next
    case False
    with Cons.prems have "r = a \<or> r \<in> set (dedup_display (seen @ [display a]) rs)" by simp
    then show ?thesis
    proof
      assume "r = a" with False show ?thesis by simp
    next
      assume "r \<in> set (dedup_display (seen @ [display a]) rs)"
      from Cons.IH [OF this] show ?thesis by simp
    qed
  qed
qed

lemma dedup_display_distinct: "distinct (map display (dedup_display seen rs))"
proof (induction rs arbitrary: seen)
  case Nil
  then show ?case by simp
next
  case (Cons a rs)
  show ?case
  proof (cases "display a \<in> set seen")
    case True
    with Cons.IH show ?thesis by simp
  next
    case False
    have "display a \<notin> display ` set (dedup_display (seen @ [display a]) rs)"
    proof
      assume "display a \<in> display ` set (dedup_display (seen @ [display a]) rs)"
      then obtain r where r: "r \<in> set (dedup_display (seen @ [display a]) rs)"
        and d: "display r = display a" by auto
      from dedup_display_fresh [OF r] d show False by simp
    qed
    with False Cons.IH show ?thesis by simp
  qed
qed

section \<open>Scenarios and dependencies of the resolver\<close>

text \<open>
  Claim C2. The claim is that an empty analytics list with the participants
  \<open>[x@co.com]\<close> gives one fallback row (confidence 0.4, "Analytics unavailable; cannot
  confirm activity"). The third loop has already pushed a row for the participant, so
  \<^verbatim>\<open>!rows.length\<close> is false and the fallback branch is skipped: the row has confidence
  0.5 and the reason of a silent participant.
\<close>

theorem no_analytics_gives_silent_row:
  "determineAttendance fmt speakers [] (Some [''x@co.com'']) default_thresholds =
     [\<lparr> person = ''x@co.com'', attended = False, confidence = Fin 0.5,
        reason = ''Present in participant list but no speech/activity detected'' \<rparr>]"
  by (simp add: determineAttendance_def)

text \<open>
  Claim C9. The output does not depend on the argument \<open>speakers\<close>: any two values of
  it, with the other arguments equal, give the same rows.
\<close>

theorem determineAttendance_ignores_speakers:
  "determineAttendance fmt speakers speakerAnalytics participants th =
   determineAttendance fmt speakers' speakerAnalytics participants th"
  by (simp add: determineAttendance_def)

section \<open>Entries without a key\<close>

lemma index_step_no_key: "\<not> has_key s \<Longrightarrow> index_step m s = m"
  by (simp add: index_step_def has_key_def)

lemma index_loop_append: "index_loop m (xs @ ys) = index_loop (index_loop m xs) ys"
  by (induction xs arbitrary: m) auto

text \<open>
  Claim C10. An analytics entry whose name and email both normalize to the empty string
  contributes nothing: removing it from the analytics list, wherever it stands, leaves
  the output unchanged, whatever its word, duration and question counts.
\<close>

theorem keyless_entry_contributes_nothing:
  assumes "norm_key (s_name s) = []" and "norm_key (s_user_email s) = []"
  shows "determineAttendance fmt sp (xs @ s # ys) participants th =
         determineAttendance fmt sp (xs @ ys) participants th"
proof -
  from assms have "index_step (index_loop [] xs) s = index_loop [] xs"
    by (simp add: index_step_no_key has_key_def)
  then have "index_loop [] (xs @ s # ys) = index_loop [] (xs @ ys)"
    by (simp add: index_loop_append)
  then show ?thesis by (simp add: determineAttendance_def)
qed

theorem keyless_entry_contributes_nothing_witness:
  "norm_key (s_name blank) = [] \<and> norm_key (s_user_email blank) = []
   \<and> determineAttendance decimal_of [] ([alice] @ blank # [one_below]) (Some [''bob@co.com''])
       default_thresholds =
     determineAttendance decimal_of [] ([alice] @ [one_below]) (Some [''bob@co.com''])
       default_thresholds
   \<and> map person (determineAttendance decimal_of [] ([alice] @ [one_below])
       (Some [''bob@co.com'']) default_thresholds) = [''Alice'', ''Carol'', ''bob@co.com'']"
proof -
  have k: "norm_key (s_name blank) = [] \<and> norm_key (s_user_email blank) = []"
    by (simp add: blank_def trim_def toLowerCase_def is_space_def)
  have p: "map person (determineAttendance decimal_of [] ([alice] @ [one_below])
       (Some [''bob@co.com'']) default_thresholds) = [''Alice'', ''Carol'', ''bob@co.com'']"
    by code_simp
  from k p keyless_entry_contributes_nothing [of blank decimal_of "[]" "[alice]" "[one_below]"
      "Some [''bob@co.com'']" default_thresholds]
  show ?thesis by simp
qed

text \<open>
  Claim C3. The claim is that the output is empty if and only if the analytics list and
  the participant list are both empty. An analytics list whose only entry has neither a
  name nor an email is not empty, yet the entry is never indexed and, with no
  participants, the output is empty.
\<close>

theorem keyless_analytics_give_no_row:
  "determineAttendance fmt speakers [unnamed] (Some []) default_thresholds = []"
  by (simp add: determineAttendance_def unnamed_def index_step_def trim_def toLowerCase_def)

lemma map_set_nonempty: "map_set m k v \<noteq> []"
  by (cases m) (auto split: if_splits)

lemma index_step_nonempty: "m \<noteq> [] \<Longrightarrow> index_step m s \<noteq> []"
  by (simp add: index_step_def Let_def map_set_nonempty)

lemma index_step_has_key: "has_key s \<Longrightarrow> index_step m s \<noteq> []"
  by (auto simp: index_step_def Let_def has_key_def map_set_nonempty)

lemma index_loop_nonempty: "m \<noteq> [] \<Longrightarrow> index_loop m sa \<noteq> []"
  by (induction sa arbitrary: m) (auto simp: index_step_nonempty)

lemma index_loop_empty_iff: "index_loop [] sa = [] \<longleftrightarrow> (\<forall>s \<in> set sa. \<not> has_key s)"
proof (induction sa)
  case Nil
  then show ?case by simp
next
  case (Cons s sa)
  show ?case
  proof (cases "has_key s")
    case True
    then show ?thesis by (auto simp: index_loop_nonempty index_step_has_key)
  next
    case False
    with Cons show ?thesis by (simp add: index_step_no_key)
  qed
qed

text \<open>
  The output is empty exactly when no entry has a key and there is no participant.
\<close>

lemma determineAttendance_empty_iff:
  "determineAttendance fmt sp sa participants th = [] \<longleftrightarrow>
     (\<forall>s \<in> set sa. \<not> has_key s) \<and> participants_or_empty participants = []"
proof (cases "index_loop [] sa = []")
  case True
  then show ?thesis
    using index_loop_empty_iff [of sa]
    by (simp add: determineAttendance_rows participant_rows_empty_index)
next
  case False
  then have "dedup_display [] (map snd (index_loop [] sa)) \<noteq> []"
    by (simp add: dedup_display_nonempty)
  with False show ?thesis
    using index_loop_empty_iff [of sa] by (simp add: determineAttendance_rows)
qed

section \<open>Fallback rows\<close>

lemma score_row_not_fallback: "\<not> is_fallback_row (score_row fmt th rec)"
proof -
  have "last (snd (scoreActive fmt rec th)) \<noteq> CHR ''y''"
    by (simp add: scoreActive_def Let_def)
  moreover have "last ''Analytics unavailable; cannot confirm activity'' = CHR ''y''"
    by simp
  ultimately have "snd (scoreActive fmt rec th) \<noteq> ''Analytics unavailable; cannot confirm activity''"
    by metis
  then show ?thesis by (simp add: is_fallback_row_def score_row_def)
qed

lemma silent_row_not_fallback: "\<not> is_fallback_row (silent_row email)"
  by (simp add: is_fallback_row_def silent_row_def)

text \<open>
  No row of any output is a fallback row: a scored row has a reason that ends in another
  character, a silent row has confidence 0.5, and the fallback branch is never taken.
\<close>

lemma no_fallback_row:
  "r \<in> set (determineAttendance fmt sp sa participants th) \<Longrightarrow> \<not> is_fallback_row r"
  by (auto simp: determineAttendance_rows participant_rows_def score_row_not_fallback
      silent_row_not_fallback)

text \<open>
  Claim C6. Fallback rows (not attended, confidence 0.4, "Analytics unavailable; cannot
  confirm activity") appear only when the analytics list is empty and the participant
  list is not: when the analytics list has an entry or there is no participant, no row of
  the output is a fallback row.
\<close>

theorem fallback_rows_only_without_analytics:
  assumes "speakerAnalytics \<noteq> [] \<or> participants_or_empty participants = []"
  shows "\<forall>r \<in> set (determineAttendance fmt speakers speakerAnalytics participants th).
           \<not> is_fallback_row r"
  using assms by (simp add: no_fallback_row)

theorem fallback_rows_only_without_analytics_witness:
  "[alice] \<noteq> []
   \<and> determineAttendance decimal_of [] [alice] (Some [''bob@co.com'']) default_thresholds =
       [\<lparr> person = ''Alice'', attended = True, confidence = Fin 1,
          reason = ''50 words; 200s spoken; 3 questions'' \<rparr>,
        \<lparr> person = ''bob@co.com'', attended = False, confidence = Fin 0.5,
          reason = ''Present in participant list but no speech/activity detected'' \<rparr>]
   \<and> \<not> is_fallback_row
         \<lparr> person = ''Alice'', attended = True, confidence = Fin 1,
           reason = ''50 words; 200s spoken; 3 questions'' \<rparr>
   \<and> \<not> is_fallback_row
         \<lparr> person = ''bob@co.com'', attended = False, confidence = Fin 0.5,
           reason = ''Present in participant list but no speech/activity detected'' \<rparr>"
proof -
  have v: "determineAttendance decimal_of [] [alice] (Some [''bob@co.com'']) default_thresholds =
       [\<lparr> person = ''Alice'', attended = True, confidence = Fin 1,
          reason = ''50 words; 200s spoken; 3 questions'' \<rparr>,
        \<lparr> person = ''bob@co.com'', attended = False, confidence = Fin 0.5,
          reason = ''Present in participant list but no speech/activity detected'' \<rparr>]"
    by code_simp
  have "[alice] \<noteq> [] \<or> participants_or_empty (Some [''bob@co.com'']) = []"
    by simp
  from fallback_rows_only_without_analytics [OF this, of decimal_of "[]" default_thresholds]
  have "\<forall>r \<in> set (determineAttendance decimal_of [] [alice] (Some [''bob@co.com''])
        default_thresholds). \<not> is_fallback_row r" .
  then show ?thesis unfolding v by simp
qed

section \<open>The order of the analytics rows\<close>

lemma index_step_writes: "index_step m s = fold write_key (key_writes_of s) m"
  by (simp add: index_step_def key_writes_of_def Let_def)

lemma index_loop_writes: "index_loop m sa = fold write_key (key_writes sa) m"
  by (induction sa arbitrary: m) (simp_all add: key_writes_def index_step_writes)

lemma keys_map_set:
  "map fst (map_set m k v) = (if k \<in> set (map fst m) then map fst m else map fst m @ [k])"
  by (induction m) (auto simp: rev_image_eqI)

lemma map_of_map_set: "map_of (map_set m k v) = (map_of m)(k \<mapsto> v)"
  by (induction m) (auto simp: fun_eq_iff)

lemma keys_fold_writes:
  "map fst (fold write_key ws m) = map fst m @ first_seen (map fst m) (map fst ws)"
proof (induction ws arbitrary: m)
  case Nil
  then show ?case by simp
next
  case (Cons w ws)
  obtain k v where w: "w = (k, v)" by (cases w)
  show ?case
    unfolding w using Cons.IH [of "map_set m k v"] by (simp add: keys_map_set)
qed

lemma map_of_fold_writes: "map_of (fold write_key ws m) = map_of m ++ map_of (rev ws)"
proof (induction ws arbitrary: m)
  case Nil
  then show ?case by simp
next
  case (Cons w ws)
  obtain k v where w: "w = (k, v)" by (cases w)
  have "map_of (map_set m k v) ++ map_of (rev ws) = map_of m ++ (map_of (rev ws @ [(k, v)]))"
    by (auto simp: map_of_map_set fun_eq_iff map_add_def split: option.splits)
  then show ?case unfolding w using Cons.IH [of "map_set m k v"] by simp
qed

lemma map_set_fresh: "k \<notin> set (map fst m) \<Longrightarrow> map_set m k v = m @ [(k, v)]"
  by (induction m) auto

lemma fold_writes_distinct:
  "distinct (map fst ws) \<Longrightarrow> set (map fst ws) \<inter> set (map fst m) = {}
   \<Longrightarrow> fold write_key ws m = m @ ws"
proof (induction ws arbitrary: m)
  case Nil
  then show ?case by simp
next
  case (Cons w ws)
  obtain k v where w: "w = (k, v)" by (cases w)
  from Cons.prems have fresh: "k \<notin> set (map fst m)" and d: "distinct (map fst ws)"
    and disj: "set (map fst ws) \<inter> set (map fst (m @ [(k, v)])) = {}"
    by (auto simp: w)
  from Cons.IH [OF d disj] show ?case by (simp add: w map_set_fresh [OF fresh])
qed

lemma index_loop_distinct_keys:
  "distinct (map fst (key_writes sa)) \<Longrightarrow> index_loop [] sa = key_writes sa"
  by (simp add: index_loop_writes fold_writes_distinct)

lemma dedup_display_key_writes:
  "dedup_display seen (map snd (key_writes sa)) =
   dedup_display seen (map mk_record (filter has_key sa))"
proof (induction sa arbitrary: seen)
  case Nil
  then show ?case by (simp add: key_writes_def)
next
  case (Cons s sa)
  have kw: "key_writes (s # sa) = key_writes_of s @ key_writes sa"
    by (simp add: key_writes_def)
  show ?case
    using Cons.IH unfolding kw
    by (auto simp: key_writes_of_def has_key_def)
qed

text \<open>
  Claim C5, as amended. The output is the rows of the analytics pass followed by the
  rows of the participant pass, the latter in the order of the participant list, and
  nothing is sorted. The analytics rows carry pairwise different display names and follow
  the iteration order of the index: its keys stand in the order in which they were first
  written, and each key holds the record written last under it. When no key is written
  twice, this is the order in which the metrics appear in the analytics list, and the
  output is the one the specification describes.
\<close>

theorem determineAttendance_row_order:
  "determineAttendance fmt sp sa participants th =
     analytics_rows fmt th (index_loop [] sa)
     @ participant_rows (index_loop [] sa) (participants_or_empty participants)
   \<and> distinct (map person (analytics_rows fmt th (index_loop [] sa)))
   \<and> map fst (index_loop [] sa) = first_seen [] (map fst (key_writes sa))
   \<and> map_of (index_loop [] sa) = map_of (rev (key_writes sa))
   \<and> (distinct (map fst (key_writes sa)) \<longrightarrow>
        determineAttendance fmt sp sa participants th =
          resolve_spec fmt sa (participants_or_empty participants) th)"
proof -
  have a: "determineAttendance fmt sp sa participants th =
     analytics_rows fmt th (index_loop [] sa)
     @ participant_rows (index_loop [] sa) (participants_or_empty participants)"
    by (simp add: determineAttendance_rows analytics_rows_def)
  have b: "distinct (map person (analytics_rows fmt th (index_loop [] sa)))"
    using dedup_display_distinct [of "[]" "map snd (index_loop [] sa)"]
    by (simp add: analytics_rows_def score_row_def comp_def)
  have c: "map fst (index_loop [] sa) = first_seen [] (map fst (key_writes sa))"
    by (simp add: index_loop_writes keys_fold_writes)
  have d: "map_of (index_loop [] sa) = map_of (rev (key_writes sa))"
    by (simp add: index_loop_writes map_of_fold_writes)
  have e: "determineAttendance fmt sp sa participants th =
          resolve_spec fmt sa (participants_or_empty participants) th"
    if "distinct (map fst (key_writes sa))"
    using index_loop_distinct_keys [OF that] dedup_display_key_writes [of "[]" sa]
    by (simp add: determineAttendance_rows resolve_spec_def)
  from a b c d e show ?thesis by blast
qed

theorem determineAttendance_row_order_witness:
  "distinct (map fst (key_writes [alice, one_below]))
   \<and> determineAttendance decimal_of [] [alice, one_below] (Some [''alice@co.com'', ''bob@co.com''])
       default_thresholds =
     resolve_spec decimal_of [alice, one_below] [''alice@co.com'', ''bob@co.com'']
       default_thresholds
   \<and> map person (determineAttendance decimal_of [] [alice, one_below]
       (Some [''alice@co.com'', ''bob@co.com'']) default_thresholds) =
     [''Alice'', ''Carol'', ''alice@co.com'', ''bob@co.com'']"
proof -
  have k: "distinct (map fst (key_writes [alice, one_below]))"
    by code_simp
  have p: "map person (determineAttendance decimal_of [] [alice, one_below]
       (Some [''alice@co.com'', ''bob@co.com'']) default_thresholds) =
     [''Alice'', ''Carol'', ''alice@co.com'', ''bob@co.com'']"
    by code_simp
  from k determineAttendance_row_order [of decimal_of "[]" "[alice, one_below]"
      "Some [''alice@co.com'', ''bob@co.com'']" default_thresholds]
  have "determineAttendance decimal_of [] [alice, one_below]
          (Some [''alice@co.com'', ''bob@co.com'']) default_thresholds =
        resolve_spec decimal_of [alice, one_below]
          (participants_or_empty (Some [''alice@co.com'', ''bob@co.com''])) default_thresholds"
    by blast
  then have "determineAttendance decimal_of [] [alice, one_below]
          (Some [''alice@co.com'', ''bob@co.com'']) default_thresholds =
        resolve_spec decimal_of [alice, one_below] [''alice@co.com'', ''bob@co.com'']
          default_thresholds"
    by (simp only: participants_or_empty.simps)
  with k p show ?thesis by (intro conjI)
qed

text \<open>
  The claim as it is stated fails when a later entry reuses a key: the third entry below
  shares the email of the first, takes over the second position of the index, and its row
  is emitted before the row of the second entry.
\<close>

theorem analytics_order_counterexample:
  "determineAttendance decimal_of [] shared_email (Some []) default_thresholds \<noteq>
     resolve_spec decimal_of shared_email [] default_thresholds
   \<and> map person (determineAttendance decimal_of [] shared_email (Some []) default_thresholds) =
       [''a'', ''x@co.com'', ''b'']
   \<and> map person (resolve_spec decimal_of shared_email [] default_thresholds) =
       [''a'', ''b'', ''x@co.com'']
   \<and> map display_of shared_email = [''a'', ''b'', ''x@co.com'']"
proof -
  have p: "map person (determineAttendance decimal_of [] shared_email (Some []) default_thresholds) =
       [''a'', ''x@co.com'', ''b'']"
    by code_simp
  have q: "map person (resolve_spec decimal_of shared_email [] default_thresholds) =
       [''a'', ''b'', ''x@co.com'']"
    by code_simp
  have r: "map display_of shared_email = [''a'', ''b'', ''x@co.com'']"
    by code_simp
  from p q have "determineAttendance decimal_of [] shared_email (Some []) default_thresholds \<noteq>
     resolve_spec decimal_of shared_email [] default_thresholds"
    by auto
  with p q r show ?thesis by simp
qed

section \<open>Untyped values: errors and defaults\<close>

lemma map_set_apsnd: "map_set (map (apsnd f) m) k (f v) = map (apsnd f) (map_set m k v)"
  by (induction m) auto

lemma map_has_apsnd: "map_has (map (apsnd f) m) k = map_has m k"
  by (induction m) auto


lemma norm_js_unsafe: "\<not> string_or_falsy v \<Longrightarrow> norm_js v = Inl TypeError"
  by (cases v) (auto simp: norm_js_def val_or_def)

























text \<open>
  On typed input the untyped resolver raises nothing and returns the rows of the typed
  one, so that the theorems of the sections above hold of it.
\<close>

lemma norm_js_typed: "norm_js (opt_str x) = Inr (norm_key x)"
  by (cases x) (auto simp: norm_js_def val_or_def)

lemma mk_record_js_typed: "mk_record_js (untyped_speaker s) = untyped_record (mk_record s)"
proof -
  have d: "val_or (opt_str a) (val_or (opt_str b) (JStr ''Unknown'')) = JStr (str_or a (str_or b ''Unknown''))"
    for a b
    by (cases a; cases b) (auto simp: val_or_def)
  have n: "val_nullish (opt_num x) (JNum (Fin 0)) = JNum (nullish_zero x)" for x
    by (cases x) auto
  have o: "val_nullish (opt_num x) JNull = opt_num x" for x
    by (cases x) auto
  show ?thesis
    by (simp add: mk_record_js_def untyped_speaker_def untyped_record_def mk_record_def
        display_of_def d n o)
qed

lemma index_step_js_typed:
  "index_step_js (map (apsnd untyped_record) m) (Some (untyped_speaker s)) =
     Inr (map (apsnd untyped_record) (index_step m s))"
proof -
  have n: "norm_js (j_name (untyped_speaker s)) = Inr (norm_key (s_name s))"
    and e: "norm_js (j_user_email (untyped_speaker s)) = Inr (norm_key (s_user_email s))"
    by (simp_all add: untyped_speaker_def norm_js_typed)
  show ?thesis
    by (simp add: index_step_js_def index_step_def Let_def n e mk_record_js_typed map_set_apsnd)
qed

lemma index_loop_js_typed:
  "index_loop_js (map (apsnd untyped_record) m) (map (Some \<circ> untyped_speaker) sa) =
     Inr (map (apsnd untyped_record) (index_loop m sa))"
  by (induction sa arbitrary: m) (simp_all add: index_step_js_typed)

lemma val_or_num: "val_or (JNum n) (JNum (Fin 0)) = JNum (or_zero n)"
  by (simp add: val_or_def or_zero_def)

lemma val_or_opt_num: "val_or (opt_num x) (JNum (Fin 0)) = JNum (opt_or_zero x)"
  by (cases x) (auto simp: val_or_def or_zero_def)

lemma isActive_js_typed: "isActive_js tonum (untyped_record r) th = isActive r th"
  by (simp add: isActive_js_def isActive_def untyped_record_def val_or_num val_or_opt_num)

lemma scoreActive_js_typed: "scoreActive_js tonum fmt (untyped_record r) th = scoreActive fmt r th"
  by (simp add: scoreActive_js_def scoreActive_def untyped_record_def val_or_num val_or_opt_num
      Let_def)

lemma analytics_loop_js_typed:
  "analytics_loop_js tonum fmt th (map (apsnd untyped_record) es)
     (map untyped_row rows, map JStr seen) =
   map_prod (map untyped_row) (map JStr) (analytics_loop fmt th es (rows, seen))"
proof (induction es arbitrary: rows seen)
  case Nil
  then show ?case by simp
next
  case (Cons kv es)
  obtain k r where kv: "kv = (k, r)" by (cases kv)
  have m: "JStr (display r) \<in> set (map JStr seen) \<longleftrightarrow> display r \<in> set seen"
    by auto
  obtain sc re where sa: "scoreActive fmt r th = (sc, re)" by (cases "scoreActive fmt r th")
  show ?case
  proof (cases "display r \<in> set seen")
    case True
    with Cons.IH [of rows seen] m show ?thesis
      by (simp add: kv untyped_record_def)
  next
    case False
    have j: "jdisplay (untyped_record r) = JStr (display r)"
      by (simp add: untyped_record_def)
    from Cons.IH [of "rows @ [\<lparr> person = display r, attended = isActive r th,
            confidence = sc, reason = re \<rparr>]" "seen @ [display r]"] False m
    show ?thesis
      by (simp add: kv j isActive_js_typed scoreActive_js_typed sa untyped_row_def)
  qed
qed

lemma participants_loop_js_typed:
  "participants_loop_js (map (apsnd untyped_record) idx) (map JStr ps) (map untyped_row rows) =
     Inr (map untyped_row (participants_loop idx ps rows))"
proof (induction ps arbitrary: rows)
  case Nil
  then show ?case by simp
next
  case (Cons p ps)
  have n: "norm_js (JStr p) = Inr (norm_key (Some p))"
    using norm_js_typed [of "Some p"] by simp
  from Cons.IH [of rows]
    Cons.IH [of "rows @ [\<lparr> person = p, attended = False, confidence = Fin 0.5,
       reason = ''Present in participant list but no speech/activity detected'' \<rparr>]"]
  show ?case
    by (simp add: n Let_def map_has_apsnd untyped_row_def)
qed

lemma determineAttendance_js_typed:
  "determineAttendance_js tonum fmt sp (map (Some \<circ> untyped_speaker) sa)
     (map_option (map JStr) participants) th =
   Inr (map untyped_row (determineAttendance fmt sp sa participants th))"
proof -
  have rows: "determineAttendance fmt sp sa participants th =
      participants_loop (index_loop [] sa) (participants_or_empty participants)
        (fst (analytics_loop fmt th (index_loop [] sa) ([], [])))"
    by (simp add: determineAttendance_rows analytics_loop_rows participants_loop_rows)
  have idx: "index_loop_js [] (map (Some \<circ> untyped_speaker) sa) =
      Inr (map (apsnd untyped_record) (index_loop [] sa))"
    using index_loop_js_typed [of "[]" sa] by simp
  have pe: "participants_or_empty (map_option (map JStr) participants) =
      map JStr (participants_or_empty participants)"
    by (cases participants) auto
  obtain r s where al: "analytics_loop fmt th (index_loop [] sa) ([], []) = (r, s)"
    by (cases "analytics_loop fmt th (index_loop [] sa) ([], [])")
  have alj: "analytics_loop_js tonum fmt th (map (apsnd untyped_record) (index_loop [] sa)) ([], []) =
      (map untyped_row r, map JStr s)"
    using analytics_loop_js_typed [of tonum fmt th "index_loop [] sa" "[]" "[]"] al by simp
  have nofb: "participants_loop (index_loop [] sa) (participants_or_empty participants) r = []
      \<Longrightarrow> participants_or_empty participants = []"
    using determineAttendance_empty_iff [of fmt sp sa participants th] rows al by simp
  show ?thesis
    unfolding determineAttendance_js_def idx pe
    using nofb by (auto simp: alj participants_loop_js_typed rows al)
qed




end
